theory Spec2Isabelle
  imports Main "HOL-Library.Sublist"
begin

section \<open>Python values\<close>

text \<open>
  The functions of \<^verbatim>\<open>app.py\<close> work on the values that the search and extraction
  services send back as JSON: \<^verbatim>\<open>None\<close>, booleans, integers, strings, lists and
  dictionaries with string keys. A dictionary is an association list in insertion
  order; the first binding of a key is the one a lookup sees. Floating-point numbers
  are left out: no function below looks inside a number.
\<close>

datatype pyval =
    PNone
  | PBool bool
  | PInt int
  | PStr string
  | PList "pyval list"
  | PDict "(string \<times> pyval) list"

text \<open>
  The exceptions the modelled code can raise. All of them are subclasses of Python's
  \<^verbatim>\<open>Exception\<close>, so an \<^verbatim>\<open>except Exception\<close> clause catches every one.
  \<open>OtherError\<close> stands for whatever a network or service library raises.
\<close>

datatype py_error =
    KeyError
  | TypeError
  | AttributeError
  | JSONDecodeError
  | StopIteration
  | OtherError string

text \<open>\<^verbatim>\<open>d.get(key, default)\<close> on a dictionary.\<close>

definition dict_get :: "(string \<times> pyval) list \<Rightarrow> string \<Rightarrow> pyval \<Rightarrow> pyval" where
  "dict_get d k dflt = (case map_of d k of None \<Rightarrow> dflt | Some v \<Rightarrow> v)"

text \<open>\<^verbatim>\<open>d[key]\<close> on a dictionary: a missing key raises \<^verbatim>\<open>KeyError\<close>.\<close>

definition dict_item :: "(string \<times> pyval) list \<Rightarrow> string \<Rightarrow> py_error + pyval" where
  "dict_item d k = (case map_of d k of None \<Rightarrow> Inl KeyError | Some v \<Rightarrow> Inr v)"

text \<open>The keys of a dictionary, each once, in insertion order.\<close>

definition dict_keys :: "(string \<times> pyval) list \<Rightarrow> string list" where
  "dict_keys d = rev (remdups (rev (map fst d)))"

text \<open>Truth value testing, as \<^verbatim>\<open>if x:\<close> does it.\<close>

fun truthy :: "pyval \<Rightarrow> bool" where
  "truthy PNone = False"
| "truthy (PBool b) = b"
| "truthy (PInt i) = (i \<noteq> 0)"
| "truthy (PStr s) = (s \<noteq> [])"
| "truthy (PList xs) = (xs \<noteq> [])"
| "truthy (PDict d) = (d \<noteq> [])"

text \<open>
  Iteration (\<^verbatim>\<open>for x in v\<close>, and what \<^verbatim>\<open>str.join\<close> does to its argument): a list
  gives its elements, a string its characters as one-character strings, a dictionary
  its keys; \<^verbatim>\<open>None\<close>, booleans and integers are not iterable.
\<close>

fun py_iter :: "pyval \<Rightarrow> py_error + pyval list" where
  "py_iter (PList xs) = Inr xs"
| "py_iter (PStr s) = Inr (map (\<lambda>c. PStr [c]) s)"
| "py_iter (PDict d) = Inr (map PStr (dict_keys d))"
| "py_iter PNone = Inl TypeError"
| "py_iter (PBool b) = Inl TypeError"
| "py_iter (PInt i) = Inl TypeError"

text \<open>
  \<^verbatim>\<open>sep.join(v)\<close>: the items of \<open>v\<close> with \<open>sep\<close> between neighbours. An item that is
  not a string raises \<^verbatim>\<open>TypeError\<close>, as does an argument that is not iterable.
\<close>

fun join_strs :: "string \<Rightarrow> string list \<Rightarrow> string" where
  "join_strs sep [] = []"
| "join_strs sep [x] = x"
| "join_strs sep (x # y # ys) = x @ sep @ join_strs sep (y # ys)"

fun as_strs :: "pyval list \<Rightarrow> py_error + string list" where
  "as_strs [] = Inr []"
| "as_strs (PStr s # vs) = (case as_strs vs of Inl e \<Rightarrow> Inl e | Inr ss \<Rightarrow> Inr (s # ss))"
| "as_strs (v # vs) = Inl TypeError"

definition str_join :: "string \<Rightarrow> pyval \<Rightarrow> py_error + string" where
  "str_join sep v =
     (case py_iter v of
        Inl e \<Rightarrow> Inl e
      | Inr items \<Rightarrow> (case as_strs items of Inl e \<Rightarrow> Inl e | Inr ss \<Rightarrow> Inr (join_strs sep ss)))"

section \<open>Flattening: \<^verbatim>\<open>format_user_info_to_flattened_json\<close>\<close>

text \<open>
  Lines 81 to 89: the dictionary built for one interaction. \<^verbatim>\<open>interaction.get\<close>
  needs a dictionary (anything else has no \<^verbatim>\<open>get\<close>: \<^verbatim>\<open>AttributeError\<close>); the
  only other step that can raise is the join of the links.
\<close>

definition flattened_interaction :: "pyval \<Rightarrow> pyval \<Rightarrow> py_error + pyval" where
  "flattened_interaction website_url interaction =
     (case interaction of
        PDict d \<Rightarrow>
          (case str_join '', '' (dict_get d ''links'' (PList [])) of
             Inl e \<Rightarrow> Inl e
           | Inr links \<Rightarrow>
               Inr (PDict
                 [(''Website URL'', website_url),
                  (''Username'', dict_get d ''username'' (PStr '''')),
                  (''Bio'', dict_get d ''bio'' (PStr '''')),
                  (''Post Type'', dict_get d ''post_type'' (PStr '''')),
                  (''Timestamp'', dict_get d ''timestamp'' (PStr '''')),
                  (''Upvotes'', dict_get d ''upvotes'' (PInt 0)),
                  (''Links'', PStr links)]))
      | _ \<Rightarrow> Inl AttributeError)"

text \<open>
  The inner loop (lines 80 to 90) appends one record per interaction to
  \<^verbatim>\<open>flattened_data\<close>, which is passed along as the accumulator.
\<close>

fun flatten_interactions :: "pyval \<Rightarrow> pyval list \<Rightarrow> pyval list \<Rightarrow> py_error + pyval list" where
  "flatten_interactions website_url [] flattened_data = Inr flattened_data"
| "flatten_interactions website_url (interaction # rest) flattened_data =
     (case flattened_interaction website_url interaction of
        Inl e \<Rightarrow> Inl e
      | Inr r \<Rightarrow> flatten_interactions website_url rest (flattened_data @ [r]))"

text \<open>
  The outer loop (lines 76 to 90). \<^verbatim>\<open>info["website_url"]\<close> and
  \<^verbatim>\<open>info["user_info"]\<close> raise \<^verbatim>\<open>KeyError\<close> on a missing key and
  \<^verbatim>\<open>TypeError\<close> when \<open>info\<close> is not a dictionary.
\<close>

fun flatten_pages :: "pyval list \<Rightarrow> pyval list \<Rightarrow> py_error + pyval list" where
  "flatten_pages [] flattened_data = Inr flattened_data"
| "flatten_pages (info # rest) flattened_data =
     (case info of
        PDict d \<Rightarrow>
          (case dict_item d ''website_url'' of
             Inl e \<Rightarrow> Inl e
           | Inr website_url \<Rightarrow>
               (case dict_item d ''user_info'' of
                  Inl e \<Rightarrow> Inl e
                | Inr user_info \<Rightarrow>
                    (case py_iter user_info of
                       Inl e \<Rightarrow> Inl e
                     | Inr interactions \<Rightarrow>
                         (case flatten_interactions website_url interactions flattened_data of
                            Inl e \<Rightarrow> Inl e
                          | Inr flattened_data' \<Rightarrow> flatten_pages rest flattened_data'))))
      | _ \<Rightarrow> Inl TypeError)"

definition format_user_info_to_flattened_json :: "pyval list \<Rightarrow> py_error + pyval list" where
  "format_user_info_to_flattened_json user_info_list = flatten_pages user_info_list []"

text \<open>
  The data model the flattener is specified on. An interaction is a dictionary whose
  \<^verbatim>\<open>links\<close>, when present, is a list of strings; a page extraction is a
  dictionary with a \<^verbatim>\<open>website_url\<close> and a \<^verbatim>\<open>user_info\<close> that is a list of
  interactions. Every other field of an interaction may be missing or hold any value.
\<close>

fun is_str :: "pyval \<Rightarrow> bool" where
  "is_str (PStr s) = True"
| "is_str v = False"

definition links_ok :: "(string \<times> pyval) list \<Rightarrow> bool" where
  "links_ok d =
     (case map_of d ''links'' of
        None \<Rightarrow> True
      | Some (PList ls) \<Rightarrow> list_all is_str ls
      | Some v \<Rightarrow> False)"

fun is_interaction :: "pyval \<Rightarrow> bool" where
  "is_interaction (PDict d) = links_ok d"
| "is_interaction v = False"

fun is_page_extraction :: "pyval \<Rightarrow> bool" where
  "is_page_extraction (PDict d) =
     (case (map_of d ''website_url'', map_of d ''user_info'') of
        (Some u, Some (PList ias)) \<Rightarrow> list_all is_interaction ias
      | _ \<Rightarrow> False)"
| "is_page_extraction v = False"

definition page_url :: "pyval \<Rightarrow> pyval" where
  "page_url p = (case p of PDict d \<Rightarrow> dict_get d ''website_url'' PNone | _ \<Rightarrow> PNone)"

definition page_interactions :: "pyval \<Rightarrow> pyval list" where
  "page_interactions p =
     (case p of
        PDict d \<Rightarrow> (case map_of d ''user_info'' of Some (PList ias) \<Rightarrow> ias | _ \<Rightarrow> [])
      | _ \<Rightarrow> [])"

text \<open>
  The (page URL, interaction) pairs in traversal order: pages in order, and the
  interactions of each page in order.
\<close>

definition page_pairs :: "pyval list \<Rightarrow> (pyval \<times> pyval) list" where
  "page_pairs pages = concat (map (\<lambda>p. map (Pair (page_url p)) (page_interactions p)) pages)"

section \<open>Extraction: \<^verbatim>\<open>extract_user_info_from_urls\<close>\<close>

text \<open>
  \<^verbatim>\<open>firecrawl_app.extract([url], {...})\<close> is a call to an outside service. It is a
  parameter of the model: given the state of the world and a URL it either raises or
  returns a response, and leaves a new state of the world. Nothing is assumed about
  it; in particular two calls for the same URL may answer differently. The API key
  only goes into the client object (line 49), which this parameter stands for, and
  the prompt and the schema are the same for every call.
\<close>

type_synonym 'w extract_service = "'w \<Rightarrow> string \<Rightarrow> (py_error + pyval) \<times> 'w"

text \<open>
  Lines 61 to 67: the entry one response contributes, if any. \<^verbatim>\<open>response.get\<close>
  and \<^verbatim>\<open>response.get('data', {}).get\<close> need dictionaries. Only a response with a
  true \<^verbatim>\<open>success\<close> and the status \<^verbatim>\<open>'completed'\<close> is read, and only true
  (non-empty) interactions make an entry.
\<close>

definition page_entry :: "string \<Rightarrow> pyval \<Rightarrow> py_error + pyval option" where
  "page_entry url response =
     (case response of
        PDict r \<Rightarrow>
          if truthy (dict_get r ''success'' PNone) \<and>
             dict_get r ''status'' PNone = PStr ''completed''
          then (case dict_get r ''data'' (PDict []) of
                  PDict data \<Rightarrow>
                    (let interactions = dict_get data ''interactions'' (PList [])
                     in if truthy interactions
                        then Inr (Some (PDict [(''website_url'', PStr url),
                                               (''user_info'', interactions)]))
                        else Inr None)
                | _ \<Rightarrow> Inl AttributeError)
          else Inr None
      | _ \<Rightarrow> Inl AttributeError)"

text \<open>
  The \<^verbatim>\<open>for\<close> loop of lines 52 to 67, inside the \<^verbatim>\<open>try\<close>. It ends either at the
  end of the URLs or at the first exception, and gives back the exception (if any),
  \<^verbatim>\<open>user_info_list\<close> as it stands at that moment, and the state of the world.
\<close>

fun extract_loop ::
  "'w extract_service \<Rightarrow> string list \<Rightarrow> 'w \<Rightarrow> pyval list \<Rightarrow> py_error option \<times> pyval list \<times> 'w" where
  "extract_loop extract [] w user_info_list = (None, user_info_list, w)"
| "extract_loop extract (url # urls) w user_info_list =
     (case extract w url of
        (Inl e, w') \<Rightarrow> (Some e, user_info_list, w')
      | (Inr response, w') \<Rightarrow>
          (case page_entry url response of
             Inl e \<Rightarrow> (Some e, user_info_list, w')
           | Inr None \<Rightarrow> extract_loop extract urls w' user_info_list
           | Inr (Some entry) \<Rightarrow> extract_loop extract urls w' (user_info_list @ [entry])))"

text \<open>
  Lines 48 to 71: \<^verbatim>\<open>except Exception: pass\<close> drops the exception, and the function
  returns \<^verbatim>\<open>user_info_list\<close> either way.
\<close>

definition extract_user_info_from_urls :: "'w extract_service \<Rightarrow> string list \<Rightarrow> 'w \<Rightarrow> pyval list" where
  "extract_user_info_from_urls extract urls w =
     (case extract_loop extract urls w [] of
        (None, user_info_list, w') \<Rightarrow> user_info_list
      | (Some e, user_info_list, w') \<Rightarrow> user_info_list)"

text \<open>
  What the service does when it is called for each URL in turn: the outcome of every
  call, in order. This describes the service alone, not the program.
\<close>

fun service_run :: "'w extract_service \<Rightarrow> string list \<Rightarrow> 'w \<Rightarrow> (py_error + pyval) list" where
  "service_run extract [] w = []"
| "service_run extract (url # urls) w =
     (case extract w url of (outcome, w') \<Rightarrow> outcome # service_run extract urls w')"

text \<open>
  What it means for the extraction of a URL to succeed or to raise. This is stated on
  the answer of the service alone, field by field, and makes no use of
  \<open>page_entry\<close> or of the loop: the properties below compare the program with it.
  A response is accepted when it is a dictionary that reports a true \<^verbatim>\<open>success\<close>
  and the status \<^verbatim>\<open>'completed'\<close>. Its data is the value under \<^verbatim>\<open>data\<close> (an empty
  dictionary when the key is missing), and its interactions are the value under
  \<^verbatim>\<open>interactions\<close> of the data (an empty list when the key is missing).
\<close>

fun is_dict :: "pyval \<Rightarrow> bool" where
  "is_dict (PDict d) = True"
| "is_dict v = False"

definition accepted :: "pyval \<Rightarrow> bool" where
  "accepted response =
     (case response of
        PDict r \<Rightarrow> truthy (dict_get r ''success'' PNone) \<and>
                   dict_get r ''status'' PNone = PStr ''completed''
      | _ \<Rightarrow> False)"

definition response_data :: "pyval \<Rightarrow> pyval" where
  "response_data response =
     (case response of PDict r \<Rightarrow> dict_get r ''data'' (PDict []) | _ \<Rightarrow> PDict [])"

definition response_interactions :: "pyval \<Rightarrow> pyval" where
  "response_interactions response =
     (case response_data response of
        PDict data \<Rightarrow> dict_get data ''interactions'' (PList [])
      | _ \<Rightarrow> PList [])"

text \<open>
  Processing a URL raises when the service call raises, when the answer is not a
  dictionary, or when an accepted answer holds data that is not a dictionary. The
  extraction of a URL succeeded when the answer is accepted and its interactions are
  true (non-empty); the entry of the URL then pairs the URL with these interactions.
\<close>

definition raises :: "py_error + pyval \<Rightarrow> bool" where
  "raises outcome =
     (case outcome of
        Inl e \<Rightarrow> True
      | Inr response \<Rightarrow>
          (if is_dict response then accepted response \<and> \<not> is_dict (response_data response)
           else True))"

definition succeeded :: "string \<Rightarrow> py_error + pyval \<Rightarrow> pyval option" where
  "succeeded url outcome =
     (case outcome of
        Inl e \<Rightarrow> None
      | Inr response \<Rightarrow>
          if accepted response \<and> is_dict (response_data response) \<and>
             truthy (response_interactions response)
          then Some (PDict [(''website_url'', PStr url),
                            (''user_info'', response_interactions response)])
          else None)"

section \<open>Discovery: \<^verbatim>\<open>search_for_urls\<close>\<close>

text \<open>
  \<^verbatim>\<open>requests.post(url, json=payload, headers=headers)\<close> is a parameter too: it
  raises or returns a response. Of a response the code reads the status code and
  \<^verbatim>\<open>response.json()\<close>, which raises when the body is not JSON (\<open>None\<close> here).
\<close>

record http_request =
  req_url :: string
  req_json :: "(string \<times> pyval) list"
  req_headers :: "(string \<times> string) list"

record http_response =
  status_code :: int
  json_body :: "pyval option"

text \<open>
  Line 44, \<^verbatim>\<open>[result["url"] for result in results]\<close>: a result that is not a
  dictionary raises \<^verbatim>\<open>TypeError\<close>, one without the key \<^verbatim>\<open>KeyError\<close>.
\<close>

fun result_urls :: "pyval list \<Rightarrow> py_error + pyval list" where
  "result_urls [] = Inr []"
| "result_urls (result # results) =
     (case result of
        PDict d \<Rightarrow>
          (case dict_item d ''url'' of
             Inl e \<Rightarrow> Inl e
           | Inr u \<Rightarrow> (case result_urls results of Inl e \<Rightarrow> Inl e | Inr us \<Rightarrow> Inr (u # us)))
      | _ \<Rightarrow> Inl TypeError)"

definition search_for_urls ::
  "(http_request \<Rightarrow> py_error + http_response) \<Rightarrow> string \<Rightarrow> string \<Rightarrow> int \<Rightarrow> py_error + pyval list" where
  "search_for_urls post company_description firecrawl_api_key num_links =
     (let url = ''https://api.firecrawl.dev/v1/search'';
          headers = [(''Authorization'', ''Bearer '' @ firecrawl_api_key),
                     (''Content-Type'', ''application/json'')];
          query1 = ''quora websites where people are looking for '' @ company_description
                     @ '' services'';
          payload = [(''query'', PStr query1),
                     (''limit'', PInt num_links),
                     (''lang'', PStr ''en''),
                     (''location'', PStr ''United States''),
                     (''timeout'', PInt 60000)]
      in case post \<lparr>req_url = url, req_json = payload, req_headers = headers\<rparr> of
           Inl e \<Rightarrow> Inl e
         | Inr response \<Rightarrow>
             if status_code response = 200
             then (case json_body response of
                     None \<Rightarrow> Inl JSONDecodeError
                   | Some data \<Rightarrow>
                       (case data of
                          PDict d \<Rightarrow>
                            if truthy (dict_get d ''success'' PNone)
                            then (case py_iter (dict_get d ''data'' (PList [])) of
                                    Inl e \<Rightarrow> Inl e
                                  | Inr results \<Rightarrow> result_urls results)
                            else Inr []
                        | _ \<Rightarrow> Inl AttributeError))
             else Inr [])"

section \<open>Model selection: \<^verbatim>\<open>choose_gemini_model\<close>\<close>

text \<open>
  A model as \<^verbatim>\<open>genai.list_models()\<close> yields it. Of its attributes the code reads
  \<^verbatim>\<open>name\<close> and \<^verbatim>\<open>supported_generation_methods\<close>, each through \<^verbatim>\<open>getattr\<close> with
  a default; \<open>None\<close> stands for an attribute that is missing or \<^verbatim>\<open>None\<close>.
\<close>

record gemini_model =
  attr_name :: "string option"
  attr_supported_generation_methods :: "string list option"

text \<open>\<^verbatim>\<open>s.split(sep)\<close> for a separator of one character: never an empty list.\<close>

fun split_char :: "char \<Rightarrow> string \<Rightarrow> string list" where
  "split_char sep [] = [[]]"
| "split_char sep (c # cs) =
     (if c = sep then [] # split_char sep cs
      else (case split_char sep cs of [] \<Rightarrow> [[c]] | w # ws \<Rightarrow> (c # w) # ws))"

text \<open>The loop of lines 121 to 126, with \<^verbatim>\<open>names\<close> as the accumulator.\<close>

fun collect_names :: "gemini_model list \<Rightarrow> string list \<Rightarrow> string list" where
  "collect_names [] names = names"
| "collect_names (m # models) names =
     (let methods = (case attr_supported_generation_methods m of None \<Rightarrow> [] | Some ms \<Rightarrow> ms)
      in if ''generateContent'' \<in> set methods \<or> ''createContent'' \<in> set methods
         then (let name = (case attr_name m of None \<Rightarrow> [] | Some n \<Rightarrow> n)
               in if name \<noteq> []
                  then collect_names models (names @ [last (split_char CHR ''/'' name)])
                  else collect_names models names)
         else collect_names models names)"

text \<open>
  Lines 116 to 129. \<^verbatim>\<open>genai.configure\<close> and \<^verbatim>\<open>genai.list_models\<close> together are the
  parameter \<open>list_models\<close>; any exception gives the empty list.
\<close>

definition list_available_gemini_models ::
  "(string \<Rightarrow> py_error + gemini_model list) \<Rightarrow> string \<Rightarrow> string list" where
  "list_available_gemini_models list_models api_key =
     (case list_models api_key of
        Inl e \<Rightarrow> []
      | Inr models \<Rightarrow> collect_names models [])"

definition priority :: "string list" where
  "priority =
     [''gemini-2.5-flash'', ''gemini-2.5-pro'', ''gemini-2.0-flash'',
      ''gemini-2.0-pro'', ''gemini-1.5-pro'', ''gemini-1.5-flash'']"

text \<open>
  The loop of lines 143 to 146. \<^verbatim>\<open>pid in a\<close> on strings is the substring test
  (\<^const>\<open>sublist\<close>); \<^verbatim>\<open>next\<close> on an exhausted generator raises
  \<^verbatim>\<open>StopIteration\<close>.
\<close>

fun choose_by_priority :: "string list \<Rightarrow> string list \<Rightarrow> py_error + string" where
  "choose_by_priority [] available = Inr ''gemini-1.5-pro''"
| "choose_by_priority (pid # pids) available =
     (if list_ex (sublist pid) available
      then (case find (sublist pid) available of
              None \<Rightarrow> Inl StopIteration
            | Some a \<Rightarrow> Inr a)
      else choose_by_priority pids available)"

text \<open>
  Lines 131 to 146. The call \<^verbatim>\<open>list_available_gemini_models(api_key)\<close> is made
  through the module's name of that function, which a caller or a test can rebind;
  it is the parameter \<open>list_available\<close>, and the program runs with
  \<open>list_available_gemini_models list_models\<close> in its place.
\<close>

definition choose_gemini_model ::
  "(string \<Rightarrow> string list) \<Rightarrow> string \<Rightarrow> string \<Rightarrow> py_error + string" where
  "choose_gemini_model list_available api_key choice =
     (if choice \<noteq> ''Auto (recommended)'' then Inr choice
      else (let available = list_available api_key
            in choose_by_priority priority available))"

section \<open>Stand-ins for the outside services\<close>

text \<open>
  Three fixed services to run the functions on. \<open>demo_service\<close> raises for one URL,
  answers with no interactions for another, and with one interaction for every other
  URL. \<open>answering\<close> is an HTTP endpoint that gives the same response to every
  request.
\<close>

definition ok_response :: "pyval list \<Rightarrow> pyval" where
  "ok_response interactions =
     PDict [(''success'', PBool True), (''status'', PStr ''completed''),
            (''data'', PDict [(''interactions'', PList interactions)])]"

definition demo_service :: "unit extract_service" where
  "demo_service w url =
     (if url = ''https://q/down'' then (Inl (OtherError ''timeout''), w)
      else if url = ''https://q/empty'' then (Inr (ok_response []), w)
      else (Inr (ok_response [PDict [(''username'', PStr ''ann'')]]), w))"

text \<open>
  \<open>mixed_service\<close> answers one URL with a failure report that all the same carries an
  interaction, one with a pending status, one with no interactions, and every other
  URL with one interaction.
\<close>

definition mixed_service :: "unit extract_service" where
  "mixed_service w url =
     (if url = ''https://q/failed''
      then (Inr (PDict [(''success'', PBool False), (''status'', PStr ''failed''),
                        (''data'', PDict [(''interactions'',
                                           PList [PDict [(''username'', PStr ''bob'')]])])]), w)
      else if url = ''https://q/pending''
      then (Inr (PDict [(''success'', PBool True), (''status'', PStr ''processing''),
                        (''data'', PDict [(''interactions'',
                                           PList [PDict [(''username'', PStr ''cy'')]])])]), w)
      else if url = ''https://q/empty'' then (Inr (ok_response []), w)
      else (Inr (ok_response [PDict [(''username'', PStr ''ann'')]]), w))"

definition answering :: "http_response \<Rightarrow> http_request \<Rightarrow> py_error + http_response" where
  "answering response request = Inr response"

definition demo_listing :: "string \<Rightarrow> string list" where
  "demo_listing api_key = [''gemini-2.5-flash-001'', ''models/gemini-1.5-pro'']"

definition demo_search :: "http_request \<Rightarrow> py_error + http_response" where
  "demo_search request =
     (if req_url request = ''https://api.firecrawl.dev/v1/search'' \<and>
         map_of (req_json request) ''query'' =
           Some (PStr ''quora websites where people are looking for ai chatbots services'') \<and>
         map_of (req_json request) ''limit'' = Some (PInt 3)
      then Inr \<lparr>status_code = 200,
                json_body = Some (PDict [(''success'', PBool True),
                  (''data'', PList [PDict [(''title'', PStr ''one''), (''url'', PStr ''https://q/1'')],
                                    PDict [(''url'', PStr ''https://q/2'')]])])\<rparr>
      else Inr \<lparr>status_code = 400, json_body = Some (PDict [(''success'', PBool False)])\<rparr>)"

definition failing_listing :: "string \<Rightarrow> py_error + gemini_model list" where
  "failing_listing api_key = Inl (OtherError ''invalid api key'')"

definition other_listing :: "string \<Rightarrow> py_error + gemini_model list" where
  "other_listing api_key =
     Inr [\<lparr>attr_name = Some ''models/text-bison-001'',
           attr_supported_generation_methods = Some [''generateContent'']\<rparr>,
          \<lparr>attr_name = Some ''models/embedding-001'',
           attr_supported_generation_methods = Some [''embedContent'']\<rparr>]"

section \<open>Properties of the flattener\<close>

lemma as_strs_map_PStr: "as_strs (map PStr ss) = Inr ss"
  by (induction ss) auto

lemma is_str_list: "list_all is_str ls \<Longrightarrow> \<exists>ss. ls = map PStr ss"
proof (induction ls)
  case Nil
  then show ?case by simp
next
  case (Cons v vs)
  then obtain ss where "vs = map PStr ss" by auto
  moreover from Cons.prems obtain s where "v = PStr s" by (cases v) auto
  ultimately have "v # vs = map PStr (s # ss)" by simp
  then show ?case ..
qed

lemma str_join_strs: "str_join sep (PList (map PStr ss)) = Inr (join_strs sep ss)"
  by (simp add: str_join_def as_strs_map_PStr)

lemma links_ok_join:
  assumes "links_ok d"
  shows "\<exists>s. str_join sep (dict_get d ''links'' (PList [])) = Inr s"
proof (cases "map_of d ''links''")
  case None
  then show ?thesis by (simp add: dict_get_def str_join_def)
next
  case (Some v)
  with assms obtain ls where v: "v = PList ls" and "list_all is_str ls"
    by (cases v) (auto simp: links_ok_def)
  then obtain ss where "ls = map PStr ss" using is_str_list by blast
  with Some v show ?thesis by (simp add: dict_get_def str_join_strs)
qed

lemma flattened_interaction_total:
  "is_interaction ia \<Longrightarrow> \<exists>r. flattened_interaction u ia = Inr r"
proof (cases ia)
  case (PDict d)
  assume "is_interaction ia"
  with PDict have "links_ok d" by simp
  then obtain s where "str_join '', '' (dict_get d ''links'' (PList [])) = Inr s"
    using links_ok_join by blast
  with PDict show ?thesis by (simp add: flattened_interaction_def)
qed auto

lemma flatten_interactions_acc:
  "list_all is_interaction ias \<Longrightarrow>
   \<exists>rs. flatten_interactions u ias acc = Inr (acc @ rs) \<and>
        list_all2 (\<lambda>ia r. flattened_interaction u ia = Inr r) ias rs"
proof (induction ias arbitrary: acc)
  case Nil
  then show ?case by simp
next
  case (Cons ia ias)
  from Cons.prems obtain r where r: "flattened_interaction u ia = Inr r"
    using flattened_interaction_total by auto
  from Cons.prems have "list_all is_interaction ias" by simp
  from Cons.IH [OF this, of "acc @ [r]"] obtain rs where
    rs: "flatten_interactions u ias (acc @ [r]) = Inr ((acc @ [r]) @ rs)"
        "list_all2 (\<lambda>ia r. flattened_interaction u ia = Inr r) ias rs"
    by blast
  have "flatten_interactions u (ia # ias) acc = Inr (acc @ (r # rs))"
    using r rs(1) by simp
  moreover have "list_all2 (\<lambda>ia r. flattened_interaction u ia = Inr r) (ia # ias) (r # rs)"
    using r rs(2) by simp
  ultimately show ?case by blast
qed

text \<open>
  The two loops only ever append to \<^verbatim>\<open>flattened_data\<close>, one record per pair, in
  traversal order.
\<close>

lemma flatten_pages_acc:
  "list_all is_page_extraction pages \<Longrightarrow>
   \<exists>rs. flatten_pages pages acc = Inr (acc @ rs) \<and>
        list_all2 (\<lambda>(u, ia) r. flattened_interaction u ia = Inr r) (page_pairs pages) rs"
proof (induction pages arbitrary: acc)
  case Nil
  then show ?case by (simp add: page_pairs_def)
next
  case (Cons p ps)
  from Cons.prems have p: "is_page_extraction p" and ps: "list_all is_page_extraction ps"
    by simp_all
  from p obtain d u ias where d: "p = PDict d" "map_of d ''website_url'' = Some u"
      "map_of d ''user_info'' = Some (PList ias)" "list_all is_interaction ias"
    by (cases p) (auto split: option.splits pyval.splits)
  from flatten_interactions_acc [OF d(4), of u acc] obtain rs1 where
    rs1: "flatten_interactions u ias acc = Inr (acc @ rs1)"
         "list_all2 (\<lambda>ia r. flattened_interaction u ia = Inr r) ias rs1"
    by blast
  from Cons.IH [OF ps, of "acc @ rs1"] obtain rs2 where
    rs2: "flatten_pages ps (acc @ rs1) = Inr ((acc @ rs1) @ rs2)"
         "list_all2 (\<lambda>(u, ia) r. flattened_interaction u ia = Inr r) (page_pairs ps) rs2"
    by blast
  have run: "flatten_pages (p # ps) acc = Inr (acc @ (rs1 @ rs2))"
    using d rs1(1) rs2(1) by (simp add: dict_item_def)
  have "page_pairs (p # ps) = map (Pair u) ias @ page_pairs ps"
    using d by (simp add: page_pairs_def page_url_def page_interactions_def dict_get_def)
  moreover have "list_all2 (\<lambda>(u, ia) r. flattened_interaction u ia = Inr r) (map (Pair u) ias) rs1"
    using rs1(2) by (simp add: list_all2_map1)
  ultimately have "list_all2 (\<lambda>(u, ia) r. flattened_interaction u ia = Inr r)
      (page_pairs (p # ps)) (rs1 @ rs2)"
    using rs2(2) by (simp add: list_all2_appendI)
  with run show ?case by blast
qed

lemma length_page_pairs:
  "length (page_pairs pages) = sum_list (map (\<lambda>p. length (page_interactions p)) pages)"
  by (induction pages) (simp_all add: page_pairs_def)

text \<open>
  Claim C1. On a list of page extractions, \<open>format_user_info_to_flattened_json\<close>
  returns, and the list it returns has as many records as the pages have
  interactions in total: none is lost and none is added.
\<close>

theorem flatten_length:
  assumes "list_all is_page_extraction pages"
  shows "\<exists>out. format_user_info_to_flattened_json pages = Inr out \<and>
           length out = sum_list (map (\<lambda>p. length (page_interactions p)) pages)"
proof -
  from flatten_pages_acc [OF assms, of "[]"] obtain rs where
    "flatten_pages pages [] = Inr rs"
    "list_all2 (\<lambda>(u, ia) r. flattened_interaction u ia = Inr r) (page_pairs pages) rs"
    by auto
  then show ?thesis
    by (auto simp: format_user_info_to_flattened_json_def length_page_pairs [symmetric]
        dest: list_all2_lengthD)
qed

text \<open>
  C1 on two pages with two and one interactions: three records.
\<close>

theorem flatten_length_witness:
  "list_all is_page_extraction
     [PDict [(''website_url'', PStr ''https://q/1''),
             (''user_info'', PList [PDict [(''username'', PStr ''ann'')],
                                    PDict [(''upvotes'', PInt 3),
                                           (''links'', PList [PStr ''a'', PStr ''b''])]])],
      PDict [(''website_url'', PStr ''https://q/2''),
             (''user_info'', PList [PDict []])]] \<and>
   (\<exists>out. format_user_info_to_flattened_json
     [PDict [(''website_url'', PStr ''https://q/1''),
             (''user_info'', PList [PDict [(''username'', PStr ''ann'')],
                                    PDict [(''upvotes'', PInt 3),
                                           (''links'', PList [PStr ''a'', PStr ''b''])]])],
      PDict [(''website_url'', PStr ''https://q/2''),
             (''user_info'', PList [PDict []])]] = Inr out \<and> length out = 3)"
proof -
  let ?pages = "[PDict [(''website_url'', PStr ''https://q/1''),
             (''user_info'', PList [PDict [(''username'', PStr ''ann'')],
                                    PDict [(''upvotes'', PInt 3),
                                           (''links'', PList [PStr ''a'', PStr ''b''])]])],
      PDict [(''website_url'', PStr ''https://q/2''),
             (''user_info'', PList [PDict []])]]"
  have v: "list_all is_page_extraction ?pages" by (simp add: links_ok_def)
  have "sum_list (map (\<lambda>p. length (page_interactions p)) ?pages) = 3"
    by (simp add: page_interactions_def)
  with flatten_length [OF v] v show ?thesis by simp
qed

lemma flattened_interaction_fields:
  assumes "flattened_interaction u ia = Inr r"
  shows "\<exists>d links. ia = PDict d \<and>
           str_join '', '' (dict_get d ''links'' (PList [])) = Inr links \<and>
           r = PDict
                 [(''Website URL'', u),
                  (''Username'', dict_get d ''username'' (PStr [])),
                  (''Bio'', dict_get d ''bio'' (PStr [])),
                  (''Post Type'', dict_get d ''post_type'' (PStr [])),
                  (''Timestamp'', dict_get d ''timestamp'' (PStr [])),
                  (''Upvotes'', dict_get d ''upvotes'' (PInt 0)),
                  (''Links'', PStr links)]"
  using assms by (auto simp: flattened_interaction_def split: pyval.splits sum.splits)

text \<open>
  Claim C4. On a list of page extractions the output follows the traversal order.
  It is as long as the list of (page URL, interaction) pairs, and record \<open>i\<close> is the
  record of pair \<open>i\<close>: its \<^verbatim>\<open>Website URL\<close> is the page's URL and each other field
  is read from that interaction.
\<close>

theorem flatten_order:
  assumes "list_all is_page_extraction pages"
  shows "\<exists>out. format_user_info_to_flattened_json pages = Inr out \<and>
           length out = length (page_pairs pages) \<and>
           (\<forall>i < length out.
              \<exists>d fs links.
                snd (page_pairs pages ! i) = PDict d \<and>
                out ! i = PDict fs \<and>
                map_of fs ''Website URL'' = Some (fst (page_pairs pages ! i)) \<and>
                map_of fs ''Username'' = Some (dict_get d ''username'' (PStr [])) \<and>
                map_of fs ''Bio'' = Some (dict_get d ''bio'' (PStr [])) \<and>
                map_of fs ''Post Type'' = Some (dict_get d ''post_type'' (PStr [])) \<and>
                map_of fs ''Timestamp'' = Some (dict_get d ''timestamp'' (PStr [])) \<and>
                map_of fs ''Upvotes'' = Some (dict_get d ''upvotes'' (PInt 0)) \<and>
                str_join '', '' (dict_get d ''links'' (PList [])) = Inr links \<and>
                map_of fs ''Links'' = Some (PStr links))"
proof -
  from flatten_pages_acc [OF assms, of "[]"] obtain out where
    run: "flatten_pages pages [] = Inr out" and
    all: "list_all2 (\<lambda>(u, ia) r. flattened_interaction u ia = Inr r) (page_pairs pages) out"
    by auto
  have len: "length out = length (page_pairs pages)"
    using all by (simp add: list_all2_lengthD)
  have "\<exists>d fs links.
          snd (page_pairs pages ! i) = PDict d \<and>
          out ! i = PDict fs \<and>
          map_of fs ''Website URL'' = Some (fst (page_pairs pages ! i)) \<and>
          map_of fs ''Username'' = Some (dict_get d ''username'' (PStr [])) \<and>
          map_of fs ''Bio'' = Some (dict_get d ''bio'' (PStr [])) \<and>
          map_of fs ''Post Type'' = Some (dict_get d ''post_type'' (PStr [])) \<and>
          map_of fs ''Timestamp'' = Some (dict_get d ''timestamp'' (PStr [])) \<and>
          map_of fs ''Upvotes'' = Some (dict_get d ''upvotes'' (PInt 0)) \<and>
          str_join '', '' (dict_get d ''links'' (PList [])) = Inr links \<and>
          map_of fs ''Links'' = Some (PStr links)" if i: "i < length out" for i
  proof -
    from all i len have
      "(\<lambda>(u, ia) r. flattened_interaction u ia = Inr r) (page_pairs pages ! i) (out ! i)"
      by (simp add: list_all2_nthD)
    then have "flattened_interaction (fst (page_pairs pages ! i)) (snd (page_pairs pages ! i))
        = Inr (out ! i)"
      by (simp add: case_prod_beta)
    from flattened_interaction_fields [OF this] obtain d links where
      "snd (page_pairs pages ! i) = PDict d"
      "str_join '', '' (dict_get d ''links'' (PList [])) = Inr links"
      "out ! i = PDict
                 [(''Website URL'', fst (page_pairs pages ! i)),
                  (''Username'', dict_get d ''username'' (PStr [])),
                  (''Bio'', dict_get d ''bio'' (PStr [])),
                  (''Post Type'', dict_get d ''post_type'' (PStr [])),
                  (''Timestamp'', dict_get d ''timestamp'' (PStr [])),
                  (''Upvotes'', dict_get d ''upvotes'' (PInt 0)),
                  (''Links'', PStr links)]"
      by blast
    then show ?thesis by simp
  qed
  with run len show ?thesis
    by (simp add: format_user_info_to_flattened_json_def)
qed

text \<open>
  C4 on two pages: the third record belongs to the second interaction of the second
  page.
\<close>

theorem flatten_order_witness:
  "list_all is_page_extraction
     [PDict [(''website_url'', PStr ''https://q/1''),
             (''user_info'', PList [PDict [(''username'', PStr ''ann'')]])],
      PDict [(''website_url'', PStr ''https://q/2''),
             (''user_info'', PList [PDict [(''username'', PStr ''bob'')],
                                    PDict [(''username'', PStr ''cy''), (''upvotes'', PInt 7)]])]] \<and>
   (\<exists>out fs. format_user_info_to_flattened_json
     [PDict [(''website_url'', PStr ''https://q/1''),
             (''user_info'', PList [PDict [(''username'', PStr ''ann'')]])],
      PDict [(''website_url'', PStr ''https://q/2''),
             (''user_info'', PList [PDict [(''username'', PStr ''bob'')],
                                    PDict [(''username'', PStr ''cy''), (''upvotes'', PInt 7)]])]]
        = Inr out \<and>
      length out = 3 \<and> out ! 2 = PDict fs \<and>
      map_of fs ''Website URL'' = Some (PStr ''https://q/2'') \<and>
      map_of fs ''Username'' = Some (PStr ''cy'') \<and>
      map_of fs ''Upvotes'' = Some (PInt 7))"
proof -
  let ?pages = "[PDict [(''website_url'', PStr ''https://q/1''),
             (''user_info'', PList [PDict [(''username'', PStr ''ann'')]])],
      PDict [(''website_url'', PStr ''https://q/2''),
             (''user_info'', PList [PDict [(''username'', PStr ''bob'')],
                                    PDict [(''username'', PStr ''cy''), (''upvotes'', PInt 7)]])]]"
  have v: "list_all is_page_extraction ?pages" by (simp add: links_ok_def)
  have pairs: "page_pairs ?pages =
      [(PStr ''https://q/1'', PDict [(''username'', PStr ''ann'')]),
       (PStr ''https://q/2'', PDict [(''username'', PStr ''bob'')]),
       (PStr ''https://q/2'', PDict [(''username'', PStr ''cy''), (''upvotes'', PInt 7)])]"
    by (simp add: page_pairs_def page_url_def page_interactions_def dict_get_def)
  from flatten_order [OF v] obtain out where
    run: "format_user_info_to_flattened_json ?pages = Inr out" and
    len: "length out = length (page_pairs ?pages)" and
    rec: "\<forall>i < length out.
              \<exists>d fs links.
                snd (page_pairs ?pages ! i) = PDict d \<and>
                out ! i = PDict fs \<and>
                map_of fs ''Website URL'' = Some (fst (page_pairs ?pages ! i)) \<and>
                map_of fs ''Username'' = Some (dict_get d ''username'' (PStr [])) \<and>
                map_of fs ''Bio'' = Some (dict_get d ''bio'' (PStr [])) \<and>
                map_of fs ''Post Type'' = Some (dict_get d ''post_type'' (PStr [])) \<and>
                map_of fs ''Timestamp'' = Some (dict_get d ''timestamp'' (PStr [])) \<and>
                map_of fs ''Upvotes'' = Some (dict_get d ''upvotes'' (PInt 0)) \<and>
                str_join '', '' (dict_get d ''links'' (PList [])) = Inr links \<and>
                map_of fs ''Links'' = Some (PStr links)"
    by blast
  from len have len3: "length out = 3" by (simp add: pairs)
  then have "(2::nat) < length out" by simp
  with rec obtain d fs where
    "snd (page_pairs ?pages ! 2) = PDict d" "out ! 2 = PDict fs"
    "map_of fs ''Website URL'' = Some (fst (page_pairs ?pages ! 2))"
    "map_of fs ''Username'' = Some (dict_get d ''username'' (PStr []))"
    "map_of fs ''Upvotes'' = Some (dict_get d ''upvotes'' (PInt 0))"
    by blast
  then have "out ! 2 = PDict fs \<and>
      map_of fs ''Website URL'' = Some (PStr ''https://q/2'') \<and>
      map_of fs ''Username'' = Some (PStr ''cy'') \<and>
      map_of fs ''Upvotes'' = Some (PInt 7)"
    by (auto simp: pairs dict_get_def)
  with run len3 have "\<exists>out fs. format_user_info_to_flattened_json ?pages = Inr out \<and>
      length out = 3 \<and> out ! 2 = PDict fs \<and>
      map_of fs ''Website URL'' = Some (PStr ''https://q/2'') \<and>
      map_of fs ''Username'' = Some (PStr ''cy'') \<and>
      map_of fs ''Upvotes'' = Some (PInt 7)"
    by blast
  with v show ?thesis by blast
qed

text \<open>
  Claim C5. The record of one interaction: a missing \<^verbatim>\<open>username\<close>, \<^verbatim>\<open>bio\<close>,
  \<^verbatim>\<open>post_type\<close> or \<^verbatim>\<open>timestamp\<close> becomes the empty string, a missing
  \<^verbatim>\<open>upvotes\<close> becomes 0, and the links (none when the key is missing)
  become one string, the links joined with \<^verbatim>\<open>", "\<close>. A field that is present is
  copied as it is.
\<close>

theorem flattened_interaction_defaults:
  assumes "map_of d ''links'' = None \<and> ss = [] \<or> map_of d ''links'' = Some (PList (map PStr ss))"
  shows "flattened_interaction url (PDict d) =
           Inr (PDict
             [(''Website URL'', url),
              (''Username'', case map_of d ''username'' of None \<Rightarrow> PStr [] | Some v \<Rightarrow> v),
              (''Bio'', case map_of d ''bio'' of None \<Rightarrow> PStr [] | Some v \<Rightarrow> v),
              (''Post Type'', case map_of d ''post_type'' of None \<Rightarrow> PStr [] | Some v \<Rightarrow> v),
              (''Timestamp'', case map_of d ''timestamp'' of None \<Rightarrow> PStr [] | Some v \<Rightarrow> v),
              (''Upvotes'', case map_of d ''upvotes'' of None \<Rightarrow> PInt 0 | Some v \<Rightarrow> v),
              (''Links'', PStr (join_strs '', '' ss))])"
proof -
  have "str_join '', '' (dict_get d ''links'' (PList [])) = Inr (join_strs '', '' ss)"
    using assms by (auto simp: dict_get_def str_join_def as_strs_map_PStr)
  then show ?thesis
    by (simp add: flattened_interaction_def dict_get_def)
qed

text \<open>
  C5 on an interaction with two links and nothing but a user name, and on one with
  nothing but its upvotes.
\<close>

theorem flattened_interaction_defaults_witness:
  "flattened_interaction (PStr ''https://q/1'')
     (PDict [(''username'', PStr ''ann''), (''links'', PList [PStr ''a.io'', PStr ''b.io''])]) =
     Inr (PDict
       [(''Website URL'', PStr ''https://q/1''),
        (''Username'', PStr ''ann''),
        (''Bio'', PStr []),
        (''Post Type'', PStr []),
        (''Timestamp'', PStr []),
        (''Upvotes'', PInt 0),
        (''Links'', PStr ''a.io, b.io'')]) \<and>
   flattened_interaction (PStr ''https://q/1'') (PDict [(''upvotes'', PInt 4)]) =
     Inr (PDict
       [(''Website URL'', PStr ''https://q/1''),
        (''Username'', PStr []),
        (''Bio'', PStr []),
        (''Post Type'', PStr []),
        (''Timestamp'', PStr []),
        (''Upvotes'', PInt 4),
        (''Links'', PStr [])])"
proof -
  have a: "map_of [(''username'', PStr ''ann''), (''links'', PList [PStr ''a.io'', PStr ''b.io''])]
             ''links'' = None \<and> [''a.io'', ''b.io''] = [] \<or>
           map_of [(''username'', PStr ''ann''), (''links'', PList [PStr ''a.io'', PStr ''b.io''])]
             ''links'' = Some (PList (map PStr [''a.io'', ''b.io'']))"
    by simp
  have b: "map_of [(''upvotes'', PInt 4)] ''links'' = None \<and> ([]::string list) = [] \<or>
           map_of [(''upvotes'', PInt 4)] ''links'' = Some (PList (map PStr []))"
    by simp
  from flattened_interaction_defaults [OF a, of "PStr ''https://q/1''"]
       flattened_interaction_defaults [OF b, of "PStr ''https://q/1''"]
  show ?thesis by simp
qed

section \<open>Properties of the extraction loop\<close>


text \<open>
  Lines 61 to 67 against the description of success: reading a response raises
  exactly when \<open>raises\<close> says so, and otherwise gives exactly the entry that
  \<open>succeeded\<close> names.
\<close>

lemma page_entry_raises:
  "isl (page_entry url response) = raises (Inr response)"
  by (cases response)
    (auto simp: page_entry_def raises_def accepted_def response_data_def Let_def
      split: pyval.splits)

lemma page_entry_succeeded:
  assumes "page_entry url response = Inr entry"
  shows "succeeded url (Inr response) = entry"
proof (cases response)
  case (PDict r)
  show ?thesis
  proof (cases "truthy (dict_get r ''success'' PNone) \<and>
                dict_get r ''status'' PNone = PStr ''completed''")
    case False
    with assms PDict show ?thesis
      by (auto simp: page_entry_def succeeded_def accepted_def)
  next
    case True
    with assms PDict obtain data where data: "dict_get r ''data'' (PDict []) = PDict data"
      by (cases "dict_get r ''data'' (PDict [])") (auto simp: page_entry_def)
    with assms PDict True show ?thesis
      by (auto simp: page_entry_def succeeded_def accepted_def response_data_def
          response_interactions_def Let_def split: if_splits)
  qed
qed (use assms in \<open>auto simp: page_entry_def\<close>)

text \<open>
  The list the loop leaves behind, for any service: the calls are read in order up to
  the first one that raises, and each one that succeeded appends its entry.
\<close>

lemma extract_loop_result:
  "fst (snd (extract_loop extract urls w acc)) =
     acc @ List.map_filter (\<lambda>(url, outcome). succeeded url outcome)
             (takeWhile (\<lambda>(url, outcome). \<not> raises outcome)
                (zip urls (service_run extract urls w)))"
proof (induction urls arbitrary: w acc)
  case Nil
  show ?case by (simp add: List.map_filter_simps)
next
  case (Cons url urls)
  obtain outcome w1 where call: "extract w url = (outcome, w1)" by (cases "extract w url")
  show ?case
  proof (cases outcome)
    case (Inl e)
    with call show ?thesis by (simp add: raises_def List.map_filter_simps)
  next
    case (Inr response)
    show ?thesis
    proof (cases "page_entry url response")
      case (Inl e)
      then have "raises (Inr response)"
        using page_entry_raises [of url response] by simp
      with call Inr Inl show ?thesis by (simp add: List.map_filter_simps)
    next
      case right: (Inr entry)
      then have ok: "\<not> raises (Inr response)"
        using page_entry_raises [of url response] by simp
      have en: "succeeded url (Inr response) = entry"
        using right by (rule page_entry_succeeded)
      show ?thesis
      proof (cases entry)
        case None
        with call Inr right ok en Cons.IH [of w1 acc] show ?thesis
          by (simp add: List.map_filter_simps)
      next
        case (Some e')
        with call Inr right ok en Cons.IH [of w1 "acc @ [e']"] show ?thesis
          by (simp add: List.map_filter_simps)
      qed
    qed
  qed
qed

lemma length_service_run: "length (service_run extract urls w) = length urls"
  by (induction urls arbitrary: w) (auto split: prod.splits)

text \<open>An entry stands for an accepted answer with true interactions, and for nothing else.\<close>

lemma succeeded_accepted:
  assumes "succeeded url outcome = Some entry"
  shows "\<exists>r data. outcome = Inr (PDict r) \<and>
           truthy (dict_get r ''success'' PNone) \<and>
           dict_get r ''status'' PNone = PStr ''completed'' \<and>
           dict_get r ''data'' (PDict []) = PDict data \<and>
           truthy (dict_get data ''interactions'' (PList [])) \<and>
           entry = PDict [(''website_url'', PStr url),
                          (''user_info'', dict_get data ''interactions'' (PList []))]"
proof (cases outcome)
  case (Inl e)
  with assms show ?thesis by (simp add: succeeded_def)
next
  case (Inr response)
  with assms have acc: "accepted response" and dd: "is_dict (response_data response)"
    and tr: "truthy (response_interactions response)"
    and en: "entry = PDict [(''website_url'', PStr url),
                            (''user_info'', response_interactions response)]"
    by (auto simp: succeeded_def split: if_splits)
  from acc obtain r where r: "response = PDict r"
    "truthy (dict_get r ''success'' PNone)" "dict_get r ''status'' PNone = PStr ''completed''"
    by (cases response) (auto simp: accepted_def)
  from dd r(1) obtain data where data: "dict_get r ''data'' (PDict []) = PDict data"
    by (cases "dict_get r ''data'' (PDict [])") (auto simp: response_data_def)
  from r(1) data have "response_interactions response = dict_get data ''interactions'' (PList [])"
    by (simp add: response_interactions_def response_data_def)
  with Inr r data tr en show ?thesis by simp
qed

lemma succeeded_url:
  "succeeded url outcome = Some entry \<Longrightarrow> page_url entry = PStr url"
  by (auto simp: succeeded_def page_url_def dict_get_def split: sum.splits if_splits)

lemma succeeded_truthy:
  "succeeded url outcome = Some entry \<Longrightarrow>
   \<exists>interactions. entry = PDict [(''website_url'', PStr url), (''user_info'', interactions)]
      \<and> truthy interactions"
  by (auto simp: succeeded_def split: sum.splits if_splits)

lemma subseq_map_filter_succeeded:
  "subseq (map page_url (List.map_filter (\<lambda>(url, outcome). succeeded url outcome) calls))
          (map (\<lambda>(url, outcome). PStr url) calls)"
proof (induction calls)
  case Nil
  show ?case by (simp add: List.map_filter_simps)
next
  case (Cons c calls)
  obtain url outcome where c: "c = (url, outcome)" by (cases c)
  show ?case
  proof (cases "succeeded url outcome")
    case None
    with c Cons.IH show ?thesis by (simp add: List.map_filter_simps list_emb_Cons)
  next
    case (Some entry)
    with c Cons.IH succeeded_url [OF Some] show ?thesis
      by (simp add: List.map_filter_simps)
  qed
qed

lemma extract_user_info_loop:
  "extract_user_info_from_urls extract urls w = fst (snd (extract_loop extract urls w []))"
  by (simp add: extract_user_info_from_urls_def split: prod.splits option.splits)

lemma extract_urls_subseq:
  "subseq (map page_url (extract_user_info_from_urls extract urls w)) (map PStr urls)"
proof -
  let ?calls = "zip urls (service_run extract urls w)"
  let ?made = "takeWhile (\<lambda>(url, outcome). \<not> raises outcome) ?calls"
  have res: "extract_user_info_from_urls extract urls w =
      List.map_filter (\<lambda>(url, outcome). succeeded url outcome) ?made"
    by (simp add: extract_user_info_loop extract_loop_result)
  have "subseq (map page_url (extract_user_info_from_urls extract urls w))
          (map (\<lambda>(url, outcome). PStr url) ?made)"
    unfolding res by (rule subseq_map_filter_succeeded)
  moreover have "subseq ?made ?calls"
    by (simp add: prefix_imp_subseq takeWhile_is_prefix)
  then have "subseq (map (\<lambda>(url, outcome). PStr url) ?made)
                    (map (\<lambda>(url, outcome). PStr url) ?calls)"
    by (rule subseq_map)
  moreover have "map (\<lambda>(url, outcome). PStr url) ?calls = map PStr urls"
  proof -
    have "map (\<lambda>(url, outcome). PStr url) ?calls = map PStr (map fst ?calls)"
      by (simp add: case_prod_beta comp_def)
    then show ?thesis by (simp add: length_service_run)
  qed
  ultimately show ?thesis
    using subseq_order.order_trans by metis
qed

lemma in_map_filterD:
  "y \<in> set (List.map_filter f xs) \<Longrightarrow> \<exists>x \<in> set xs. f x = Some y"
  by (auto simp: List.map_filter_def)

text \<open>
  Where an entry of the result comes from: a position of the input whose call
  returned an accepted answer with true interactions, with no call raising before it.
\<close>

lemma extract_entry_origin:
  assumes "entry \<in> set (extract_user_info_from_urls extract urls w)"
  shows "\<exists>i r data. i < length urls \<and>
           service_run extract urls w ! i = Inr (PDict r) \<and>
           truthy (dict_get r ''success'' PNone) \<and>
           dict_get r ''status'' PNone = PStr ''completed'' \<and>
           dict_get r ''data'' (PDict []) = PDict data \<and>
           truthy (dict_get data ''interactions'' (PList [])) \<and>
           entry = PDict [(''website_url'', PStr (urls ! i)),
                          (''user_info'', dict_get data ''interactions'' (PList []))]"
proof -
  let ?calls = "zip urls (service_run extract urls w)"
  let ?made = "takeWhile (\<lambda>(url, outcome). \<not> raises outcome) ?calls"
  from assms have "entry \<in> set (List.map_filter (\<lambda>(url, outcome). succeeded url outcome) ?made)"
    by (simp add: extract_user_info_loop extract_loop_result)
  then obtain c where c: "c \<in> set ?made" "(\<lambda>(url, outcome). succeeded url outcome) c = Some entry"
    using in_map_filterD by force
  obtain url outcome where c_eq: "c = (url, outcome)" by (cases c)
  from c(1) have "c \<in> set ?calls" by (rule set_takeWhileD [THEN conjunct1])
  with c_eq obtain i where i: "i < length urls" "urls ! i = url"
      "service_run extract urls w ! i = outcome"
    by (auto simp: in_set_zip length_service_run)
  from c(2) c_eq have "succeeded url outcome = Some entry" by simp
  from succeeded_accepted [OF this] obtain r data where
    "outcome = Inr (PDict r)"
    "truthy (dict_get r ''success'' PNone)"
    "dict_get r ''status'' PNone = PStr ''completed''"
    "dict_get r ''data'' (PDict []) = PDict data"
    "truthy (dict_get data ''interactions'' (PList []))"
    "entry = PDict [(''website_url'', PStr url),
                    (''user_info'', dict_get data ''interactions'' (PList []))]"
    by blast
  with i show ?thesis by blast
qed

lemma extract_entries_shape:
  assumes "entry \<in> set (extract_user_info_from_urls extract urls w)"
  shows "\<exists>url interactions. url \<in> set urls \<and> truthy interactions \<and>
           entry = PDict [(''website_url'', PStr url), (''user_info'', interactions)]"
proof -
  from extract_entry_origin [OF assms] obtain i r data where
    "i < length urls"
    "truthy (dict_get data ''interactions'' (PList []))"
    "entry = PDict [(''website_url'', PStr (urls ! i)),
                    (''user_info'', dict_get data ''interactions'' (PList []))]"
    by blast
  moreover from this(1) have "urls ! i \<in> set urls" by simp
  ultimately show ?thesis by blast
qed

lemma page_entry_empty:
  assumes "truthy (dict_get r ''success'' PNone)"
    and "dict_get r ''status'' PNone = PStr ''completed''"
    and "dict_get r ''data'' (PDict []) = PDict data"
    and "dict_get data ''interactions'' (PList []) = PList []"
  shows "page_entry url (PDict r) = Inr None"
  using assms by (simp add: page_entry_def)

text \<open>
  Claim C6. The list \<open>extract_user_info_from_urls\<close> returns is made of the entries of
  the URLs whose extraction succeeded, in the order of the input. Success is read off
  the answers of the service (\<open>succeeded\<close>, \<open>raises\<close>), not off the program: the calls
  are taken in input order up to the first one that raises, and each call that
  succeeded gives its entry. So the URLs of the entries are a subsequence of the input
  URLs, and every entry holds an input URL and true (non-empty) interactions. Every
  entry comes from a position of the input whose answer reported a true
  \<^verbatim>\<open>success\<close> and the status \<^verbatim>\<open>'completed'\<close>, and holds the URL of that position
  and the interactions of that answer. A response that is accepted but holds an
  empty interactions list gives no entry and does not stop the loop.
\<close>

theorem extract_order:
  "extract_user_info_from_urls extract urls w =
     List.map_filter (\<lambda>(url, outcome). succeeded url outcome)
       (takeWhile (\<lambda>(url, outcome). \<not> raises outcome)
          (zip urls (service_run extract urls w))) \<and>
   subseq (map page_url (extract_user_info_from_urls extract urls w)) (map PStr urls) \<and>
   (\<forall>entry \<in> set (extract_user_info_from_urls extract urls w).
      \<exists>url interactions. url \<in> set urls \<and> truthy interactions \<and>
        entry = PDict [(''website_url'', PStr url), (''user_info'', interactions)]) \<and>
   (\<forall>entry \<in> set (extract_user_info_from_urls extract urls w).
      \<exists>i r data. i < length urls \<and>
        service_run extract urls w ! i = Inr (PDict r) \<and>
        truthy (dict_get r ''success'' PNone) \<and>
        dict_get r ''status'' PNone = PStr ''completed'' \<and>
        dict_get r ''data'' (PDict []) = PDict data \<and>
        truthy (dict_get data ''interactions'' (PList [])) \<and>
        entry = PDict [(''website_url'', PStr (urls ! i)),
                       (''user_info'', dict_get data ''interactions'' (PList []))]) \<and>
   (\<forall>url r data.
      truthy (dict_get r ''success'' PNone) \<and>
      dict_get r ''status'' PNone = PStr ''completed'' \<and>
      dict_get r ''data'' (PDict []) = PDict data \<and>
      dict_get data ''interactions'' (PList []) = PList []
      \<longrightarrow> page_entry url (PDict r) = Inr None \<and>
          succeeded url (Inr (PDict r)) = None \<and> \<not> raises (Inr (PDict r)))"
proof (intro conjI)
  show "extract_user_info_from_urls extract urls w =
     List.map_filter (\<lambda>(url, outcome). succeeded url outcome)
       (takeWhile (\<lambda>(url, outcome). \<not> raises outcome)
          (zip urls (service_run extract urls w)))"
    by (simp add: extract_user_info_loop extract_loop_result)
next
  show "subseq (map page_url (extract_user_info_from_urls extract urls w)) (map PStr urls)"
    by (rule extract_urls_subseq)
next
  show "\<forall>entry \<in> set (extract_user_info_from_urls extract urls w).
      \<exists>url interactions. url \<in> set urls \<and> truthy interactions \<and>
        entry = PDict [(''website_url'', PStr url), (''user_info'', interactions)]"
  proof (rule ballI)
    fix entry
    assume "entry \<in> set (extract_user_info_from_urls extract urls w)"
    then show "\<exists>url interactions. url \<in> set urls \<and> truthy interactions \<and>
        entry = PDict [(''website_url'', PStr url), (''user_info'', interactions)]"
      by (rule extract_entries_shape)
  qed
next
  show "\<forall>entry \<in> set (extract_user_info_from_urls extract urls w).
      \<exists>i r data. i < length urls \<and>
        service_run extract urls w ! i = Inr (PDict r) \<and>
        truthy (dict_get r ''success'' PNone) \<and>
        dict_get r ''status'' PNone = PStr ''completed'' \<and>
        dict_get r ''data'' (PDict []) = PDict data \<and>
        truthy (dict_get data ''interactions'' (PList [])) \<and>
        entry = PDict [(''website_url'', PStr (urls ! i)),
                       (''user_info'', dict_get data ''interactions'' (PList []))]"
  proof (rule ballI)
    fix entry
    assume "entry \<in> set (extract_user_info_from_urls extract urls w)"
    then show "\<exists>i r data. i < length urls \<and>
        service_run extract urls w ! i = Inr (PDict r) \<and>
        truthy (dict_get r ''success'' PNone) \<and>
        dict_get r ''status'' PNone = PStr ''completed'' \<and>
        dict_get r ''data'' (PDict []) = PDict data \<and>
        truthy (dict_get data ''interactions'' (PList [])) \<and>
        entry = PDict [(''website_url'', PStr (urls ! i)),
                       (''user_info'', dict_get data ''interactions'' (PList []))]"
      by (rule extract_entry_origin)
  qed
next
  show "\<forall>url r data.
      truthy (dict_get r ''success'' PNone) \<and>
      dict_get r ''status'' PNone = PStr ''completed'' \<and>
      dict_get r ''data'' (PDict []) = PDict data \<and>
      dict_get data ''interactions'' (PList []) = PList []
      \<longrightarrow> page_entry url (PDict r) = Inr None \<and>
          succeeded url (Inr (PDict r)) = None \<and> \<not> raises (Inr (PDict r))"
  proof (intro allI impI)
    fix url r data
    assume h: "truthy (dict_get r ''success'' PNone) \<and>
      dict_get r ''status'' PNone = PStr ''completed'' \<and>
      dict_get r ''data'' (PDict []) = PDict data \<and>
      dict_get data ''interactions'' (PList []) = PList []"
    then have none: "page_entry url (PDict r) = Inr None"
      by (simp add: page_entry_empty)
    then have "succeeded url (Inr (PDict r)) = None"
      by (rule page_entry_succeeded)
    moreover from none have "\<not> raises (Inr (PDict r))"
      using page_entry_raises [of url "PDict r"] by simp
    ultimately show "page_entry url (PDict r) = Inr None \<and>
          succeeded url (Inr (PDict r)) = None \<and> \<not> raises (Inr (PDict r))"
      using none by simp
  qed
qed

text \<open>
  C6 on five URLs. The second is answered with a failure report and the third with a
  pending status, both carrying an interaction; the fourth is accepted with no
  interactions. Only the first and the fifth URL give an entry, in that order.
\<close>

theorem extract_order_witness:
  "extract_user_info_from_urls mixed_service
     [''https://q/1'', ''https://q/failed'', ''https://q/pending'', ''https://q/empty'',
      ''https://q/5''] () =
     [PDict [(''website_url'', PStr ''https://q/1''),
             (''user_info'', PList [PDict [(''username'', PStr ''ann'')]])],
      PDict [(''website_url'', PStr ''https://q/5''),
             (''user_info'', PList [PDict [(''username'', PStr ''ann'')]])]] \<and>
   page_entry ''https://q/empty'' (ok_response []) = Inr None \<and>
   succeeded ''https://q/empty'' (Inr (ok_response [])) = None \<and>
   \<not> raises (Inr (ok_response []))"
proof -
  let ?urls = "[''https://q/1'', ''https://q/failed'', ''https://q/pending'',
                ''https://q/empty'', ''https://q/5'']"
  let ?failed = "PDict [(''success'', PBool False), (''status'', PStr ''failed''),
                        (''data'', PDict [(''interactions'',
                                           PList [PDict [(''username'', PStr ''bob'')]])])]"
  let ?pending = "PDict [(''success'', PBool True), (''status'', PStr ''processing''),
                        (''data'', PDict [(''interactions'',
                                           PList [PDict [(''username'', PStr ''cy'')]])])]"
  have run: "service_run mixed_service ?urls () =
      [Inr (ok_response [PDict [(''username'', PStr ''ann'')]]),
       Inr ?failed, Inr ?pending,
       Inr (ok_response []),
       Inr (ok_response [PDict [(''username'', PStr ''ann'')]])]"
    by (simp add: mixed_service_def)
  have r1: "\<not> raises (Inr (ok_response xs))" for xs
    by (simp add: raises_def accepted_def response_data_def ok_response_def dict_get_def)
  have r2: "\<not> raises (Inr ?failed)"
    by (simp add: raises_def accepted_def response_data_def dict_get_def)
  have r3: "\<not> raises (Inr ?pending)"
    by (simp add: raises_def accepted_def response_data_def dict_get_def)
  have s1: "succeeded url (Inr (ok_response [PDict [(''username'', PStr ''ann'')]])) =
      Some (PDict [(''website_url'', PStr url),
                   (''user_info'', PList [PDict [(''username'', PStr ''ann'')]])])" for url
    by (simp add: succeeded_def accepted_def response_data_def response_interactions_def
        ok_response_def dict_get_def)
  have s2: "succeeded url (Inr ?failed) = None" for url
    by (simp add: succeeded_def accepted_def dict_get_def)
  have s3: "succeeded url (Inr ?pending) = None" for url
    by (simp add: succeeded_def accepted_def dict_get_def)
  have s4: "succeeded url (Inr (ok_response [])) = None" for url
    by (simp add: succeeded_def accepted_def response_data_def response_interactions_def
        ok_response_def dict_get_def)
  have pre: "truthy (dict_get [(''success'', PBool True), (''status'', PStr ''completed''),
            (''data'', PDict [(''interactions'', PList [])])] ''success'' PNone) \<and>
      dict_get [(''success'', PBool True), (''status'', PStr ''completed''),
            (''data'', PDict [(''interactions'', PList [])])] ''status'' PNone = PStr ''completed'' \<and>
      dict_get [(''success'', PBool True), (''status'', PStr ''completed''),
            (''data'', PDict [(''interactions'', PList [])])] ''data'' (PDict []) =
        PDict [(''interactions'', PList [])] \<and>
      dict_get [(''interactions'', PList [])] ''interactions'' (PList []) = PList []"
    by (simp add: dict_get_def)
  note inst = extract_order [of mixed_service ?urls "()"]
  note empty = inst [THEN conjunct2, THEN conjunct2, THEN conjunct2, THEN conjunct2,
      rule_format, OF pre]
  have dropped: "page_entry ''https://q/empty'' (ok_response []) = Inr None \<and>
      succeeded ''https://q/empty'' (Inr (ok_response [])) = None \<and>
      \<not> raises (Inr (ok_response []))"
    unfolding ok_response_def by (rule empty)
  have eq: "extract_user_info_from_urls mixed_service ?urls () =
     List.map_filter (\<lambda>(url, outcome). succeeded url outcome)
       (takeWhile (\<lambda>(url, outcome). \<not> raises outcome)
          (zip ?urls (service_run mixed_service ?urls ())))"
    by (rule inst [THEN conjunct1])
  have "extract_user_info_from_urls mixed_service ?urls () =
     [PDict [(''website_url'', PStr ''https://q/1''),
             (''user_info'', PList [PDict [(''username'', PStr ''ann'')]])],
      PDict [(''website_url'', PStr ''https://q/5''),
             (''user_info'', PList [PDict [(''username'', PStr ''ann'')]])]]"
    unfolding eq run
    by (simp add: r1 r2 r3 s1 s2 s3 s4)
  with dropped show ?thesis by simp
qed



text \<open>
  Claim C2 asks that a URL whose call raises does not keep later URLs from being
  processed. The code does otherwise: with the service down for the first URL, the
  second URL is never tried and the result is empty, although the second URL alone
  gives an entry.
\<close>

theorem extract_aborts_batch:
  "extract_user_info_from_urls demo_service [''https://q/down'', ''https://q/2''] () = [] \<and>
   extract_user_info_from_urls demo_service [''https://q/2''] () =
     [PDict [(''website_url'', PStr ''https://q/2''),
             (''user_info'', PList [PDict [(''username'', PStr ''ann'')]])]]"
  by (simp add: extract_user_info_from_urls_def demo_service_def page_entry_def
      ok_response_def dict_get_def)

section \<open>Properties of discovery\<close>

text \<open>
  Claim C3, as the code has it. When the response has a status other than 200, or
  its body is a JSON object whose \<^verbatim>\<open>success\<close> is missing or not true,
  \<open>search_for_urls\<close> returns the empty list and raises nothing.
\<close>

theorem search_failure_empty:
  assumes "status_code response \<noteq> 200 \<or>
           (\<exists>d. json_body response = Some (PDict d) \<and> \<not> truthy (dict_get d ''success'' PNone))"
  shows "search_for_urls (answering response) company_description firecrawl_api_key num_links
           = Inr []"
  using assms by (auto simp: search_for_urls_def answering_def)

text \<open>
  C3 on a response with status 401 and no JSON body, and on a response with status
  200 and the body \<^verbatim>\<open>{"success": false}\<close>.
\<close>

theorem search_failure_empty_witness:
  "status_code \<lparr>status_code = 401, json_body = None\<rparr> = 401 \<and>
   search_for_urls (answering \<lparr>status_code = 401, json_body = None\<rparr>)
     ''ai chatbots'' ''fc-key'' 3 = Inr [] \<and>
   json_body \<lparr>status_code = 200, json_body = Some (PDict [(''success'', PBool False)])\<rparr> =
     Some (PDict [(''success'', PBool False)]) \<and>
   \<not> truthy (dict_get [(''success'', PBool False)] ''success'' PNone) \<and>
   search_for_urls (answering \<lparr>status_code = 200,
       json_body = Some (PDict [(''success'', PBool False)])\<rparr>)
     ''ai chatbots'' ''fc-key'' 3 = Inr []"
proof -
  have a: "status_code \<lparr>status_code = 401, json_body = None\<rparr> \<noteq> 200 \<or>
    (\<exists>d. json_body \<lparr>status_code = 401, json_body = None\<rparr> = Some (PDict d) \<and>
         \<not> truthy (dict_get d ''success'' PNone))"
    by simp
  have falsy: "\<not> truthy (dict_get [(''success'', PBool False)] ''success'' PNone)"
    by (simp add: dict_get_def)
  then have b: "status_code \<lparr>status_code = 200,
        json_body = Some (PDict [(''success'', PBool False)])\<rparr> \<noteq> 200 \<or>
    (\<exists>d. json_body \<lparr>status_code = 200,
        json_body = Some (PDict [(''success'', PBool False)])\<rparr> = Some (PDict d) \<and>
         \<not> truthy (dict_get d ''success'' PNone))"
    by simp
  from search_failure_empty [OF a] search_failure_empty [OF b] falsy show ?thesis
    by simp
qed

text \<open>
  A response with status 200 whose body is the JSON array \<^verbatim>\<open>[]\<close> has no true
  \<^verbatim>\<open>success\<close> flag, yet \<open>search_for_urls\<close> raises on it: \<^verbatim>\<open>data.get\<close> fails
  with \<^verbatim>\<open>AttributeError\<close>, and nothing catches it.
\<close>

theorem search_non_object_body_raises:
  "search_for_urls (answering \<lparr>status_code = 200, json_body = Some (PList [])\<rparr>)
     ''ai chatbots'' ''fc-key'' 3 = Inl AttributeError"
  by (simp add: search_for_urls_def answering_def)

lemma result_urls_all2:
  "list_all2 (\<lambda>result u. \<exists>entry. result = PDict entry \<and> map_of entry ''url'' = Some u) results us
   \<Longrightarrow> result_urls results = Inr us"
  by (induction results us rule: list_all2_induct) (auto simp: dict_item_def)

text \<open>
  Claim C7. \<open>search_for_urls\<close> sends one request: to the search endpoint, with the
  query \<^verbatim>\<open>quora websites where people are looking for <topic> services\<close>, the
  limit the caller gave, \<^verbatim>\<open>lang\<close> \<^verbatim>\<open>en\<close>, \<^verbatim>\<open>location\<close> \<^verbatim>\<open>United States\<close> and a
  \<^verbatim>\<open>timeout\<close> of 60000 milliseconds. The endpoint \<open>post\<close> is arbitrary but for its
  answer to that request, so the result depends on no other request. When the answer
  is a success with a list of results that each hold a \<^verbatim>\<open>url\<close>, the function returns
  those URLs in the order of the results.
\<close>

theorem search_request_and_result:
  assumes "post \<lparr>req_url = ''https://api.firecrawl.dev/v1/search'',
                 req_json =
                   [(''query'', PStr (''quora websites where people are looking for '' @ topic
                                      @ '' services'')),
                    (''limit'', PInt num_links),
                    (''lang'', PStr ''en''),
                    (''location'', PStr ''United States''),
                    (''timeout'', PInt (60 * 1000))],
                 req_headers =
                   [(''Authorization'', ''Bearer '' @ firecrawl_api_key),
                    (''Content-Type'', ''application/json'')]\<rparr> = Inr response"
    and "status_code response = 200"
    and "json_body response = Some (PDict d)"
    and "truthy (dict_get d ''success'' PNone)"
    and "dict_get d ''data'' (PList []) = PList results"
    and "list_all2 (\<lambda>result u. \<exists>entry. result = PDict entry \<and> map_of entry ''url'' = Some u)
           results us"
  shows "search_for_urls post topic firecrawl_api_key num_links = Inr us"
  using assms(1-5) result_urls_all2 [OF assms(6)]
  by (simp add: search_for_urls_def)

text \<open>
  C7 on an endpoint that answers with two results only when the request is the
  expected one.
\<close>

theorem search_request_and_result_witness:
  "search_for_urls demo_search ''ai chatbots'' ''fc-key'' 3 =
     Inr [PStr ''https://q/1'', PStr ''https://q/2'']"
proof -
  let ?response = "\<lparr>status_code = 200,
        json_body = Some (PDict [(''success'', PBool True),
          (''data'', PList [PDict [(''title'', PStr ''one''), (''url'', PStr ''https://q/1'')],
                            PDict [(''url'', PStr ''https://q/2'')]])])\<rparr>"
  let ?d = "[(''success'', PBool True),
          (''data'', PList [PDict [(''title'', PStr ''one''), (''url'', PStr ''https://q/1'')],
                            PDict [(''url'', PStr ''https://q/2'')]])]"
  have a: "demo_search \<lparr>req_url = ''https://api.firecrawl.dev/v1/search'',
                 req_json =
                   [(''query'', PStr (''quora websites where people are looking for ''
                                      @ ''ai chatbots'' @ '' services'')),
                    (''limit'', PInt 3),
                    (''lang'', PStr ''en''),
                    (''location'', PStr ''United States''),
                    (''timeout'', PInt (60 * 1000))],
                 req_headers =
                   [(''Authorization'', ''Bearer '' @ ''fc-key''),
                    (''Content-Type'', ''application/json'')]\<rparr> = Inr ?response"
    by (simp add: demo_search_def)
  have b: "status_code ?response = 200" by simp
  have c: "json_body ?response = Some (PDict ?d)" by simp
  have d: "truthy (dict_get ?d ''success'' PNone)" by (simp add: dict_get_def)
  have e: "dict_get ?d ''data'' (PList []) =
      PList [PDict [(''title'', PStr ''one''), (''url'', PStr ''https://q/1'')],
             PDict [(''url'', PStr ''https://q/2'')]]"
    by (simp add: dict_get_def)
  have f: "list_all2 (\<lambda>result u. \<exists>entry. result = PDict entry \<and> map_of entry ''url'' = Some u)
      [PDict [(''title'', PStr ''one''), (''url'', PStr ''https://q/1'')],
       PDict [(''url'', PStr ''https://q/2'')]]
      [PStr ''https://q/1'', PStr ''https://q/2'']"
    by simp
  show ?thesis by (rule search_request_and_result [where post = demo_search, OF a b c d e f])
qed

section \<open>Properties of model selection\<close>

lemma choose_by_priority_no_match:
  "\<forall>pid \<in> set pids. \<forall>a \<in> set available. \<not> sublist pid a \<Longrightarrow>
   choose_by_priority pids available = Inr ''gemini-1.5-pro''"
  by (induction pids) (auto simp: list_ex_iff)

text \<open>
  The test \<^verbatim>\<open>any(pid in a for a in available)\<close> guards the \<^verbatim>\<open>next\<close>: the loop
  never raises \<^verbatim>\<open>StopIteration\<close>.
\<close>

lemma choose_by_priority_returns:
  "\<exists>m. choose_by_priority pids available = Inr m"
proof (induction pids)
  case Nil
  show ?case by simp
next
  case (Cons pid pids)
  show ?case
  proof (cases "list_ex (sublist pid) available")
    case True
    then obtain a where "find (sublist pid) available = Some a"
      by (cases "find (sublist pid) available") (auto simp: list_ex_iff find_None_iff)
    with True show ?thesis by simp
  next
    case False
    with Cons.IH show ?thesis by simp
  qed
qed

text \<open>
  \<^verbatim>\<open>split\<close> always gives at least one piece, so \<^verbatim>\<open>[-1]\<close> (\<^const>\<open>last\<close> in
  \<open>collect_names\<close>) reads a real element.
\<close>

lemma split_char_nonempty: "split_char sep s \<noteq> []"
  by (induction s) (auto split: list.splits)

text \<open>
  Claim C8. With the choice \<^verbatim>\<open>Auto (recommended)\<close> and the available models
  \<^verbatim>\<open>gemini-2.5-flash-001\<close> and \<^verbatim>\<open>models/gemini-1.5-pro\<close>, the priority list
  starts with \<^verbatim>\<open>gemini-2.5-flash\<close> and \<open>choose_gemini_model\<close> returns
  \<^verbatim>\<open>gemini-2.5-flash-001\<close>.
\<close>

theorem choose_auto_first_priority:
  assumes "list_available api_key = [''gemini-2.5-flash-001'', ''models/gemini-1.5-pro'']"
  shows "hd priority = ''gemini-2.5-flash'' \<and>
         choose_gemini_model list_available api_key ''Auto (recommended)''
           = Inr ''gemini-2.5-flash-001''"
  using assms by (simp add: choose_gemini_model_def priority_def)

text \<open>
  C8 with a listing function that returns the two names.
\<close>

theorem choose_auto_first_priority_witness:
  "demo_listing ''g-key'' = [''gemini-2.5-flash-001'', ''models/gemini-1.5-pro''] \<and>
   choose_gemini_model demo_listing ''g-key'' ''Auto (recommended)'' = Inr ''gemini-2.5-flash-001''"
proof -
  have a: "demo_listing ''g-key'' = [''gemini-2.5-flash-001'', ''models/gemini-1.5-pro'']"
    by (simp add: demo_listing_def)
  from choose_auto_first_priority [of demo_listing "''g-key''", OF a] a show ?thesis by simp
qed

text \<open>
  Claim C9. A choice other than \<^verbatim>\<open>Auto (recommended)\<close> is returned unchanged. With
  the automatic choice, \<open>choose_gemini_model\<close> returns \<^verbatim>\<open>gemini-1.5-pro\<close> when the
  listing raises (\<open>list_available_gemini_models\<close> then gives the empty list), when
  the available list is empty, and whenever no priority name occurs in an available
  name.
\<close>

theorem choose_explicit_or_default:
  "(choice \<noteq> ''Auto (recommended)'' \<longrightarrow>
      choose_gemini_model list_available api_key choice = Inr choice) \<and>
   (list_models api_key = Inl e \<longrightarrow>
      choose_gemini_model (list_available_gemini_models list_models) api_key
        ''Auto (recommended)'' = Inr ''gemini-1.5-pro'') \<and>
   (list_available api_key = [] \<longrightarrow>
      choose_gemini_model list_available api_key ''Auto (recommended)'' = Inr ''gemini-1.5-pro'') \<and>
   ((\<forall>pid \<in> set priority. \<forall>a \<in> set (list_available api_key). \<not> sublist pid a) \<longrightarrow>
      choose_gemini_model list_available api_key ''Auto (recommended)'' = Inr ''gemini-1.5-pro'')"
proof -
  have none: "choose_gemini_model la api_key ''Auto (recommended)'' = Inr ''gemini-1.5-pro''"
    if "\<forall>pid \<in> set priority. \<forall>a \<in> set (la api_key). \<not> sublist pid a" for la
    using that by (simp add: choose_gemini_model_def choose_by_priority_no_match)
  have "choose_gemini_model list_available api_key choice = Inr choice"
    if "choice \<noteq> ''Auto (recommended)''"
    using that by (simp add: choose_gemini_model_def)
  moreover have "choose_gemini_model (list_available_gemini_models list_models) api_key
        ''Auto (recommended)'' = Inr ''gemini-1.5-pro''"
    if "list_models api_key = Inl e"
  proof -
    from that have "list_available_gemini_models list_models api_key = []"
      by (simp add: list_available_gemini_models_def)
    then show ?thesis by (simp add: none)
  qed
  moreover have "choose_gemini_model list_available api_key ''Auto (recommended)''
        = Inr ''gemini-1.5-pro''"
    if "list_available api_key = []"
    using that by (simp add: none)
  ultimately show ?thesis using none by blast
qed

text \<open>
  C9 on an explicit choice, on a listing that raises, and on a listing with no
  Gemini model.
\<close>

theorem choose_explicit_or_default_witness:
  "''gemini-1.5-flash'' \<noteq> ''Auto (recommended)'' \<and>
   choose_gemini_model demo_listing ''g-key'' ''gemini-1.5-flash'' = Inr ''gemini-1.5-flash'' \<and>
   failing_listing ''g-key'' = Inl (OtherError ''invalid api key'') \<and>
   choose_gemini_model (list_available_gemini_models failing_listing) ''g-key''
     ''Auto (recommended)'' = Inr ''gemini-1.5-pro'' \<and>
   list_available_gemini_models failing_listing ''g-key'' = [] \<and>
   choose_gemini_model (list_available_gemini_models other_listing) ''g-key''
     ''Auto (recommended)'' = Inr ''gemini-1.5-pro''"
proof -
  have a: "''gemini-1.5-flash'' \<noteq> ''Auto (recommended)''" by simp
  have b: "failing_listing ''g-key'' = Inl (OtherError ''invalid api key'')"
    by (simp add: failing_listing_def)
  have c: "list_available_gemini_models failing_listing ''g-key'' = []"
    by (simp add: list_available_gemini_models_def failing_listing_def)
  have avail: "list_available_gemini_models other_listing ''g-key'' = [''text-bison-001'']"
    by (simp add: list_available_gemini_models_def other_listing_def)
  have d: "\<forall>pid \<in> set priority.
      \<forall>a \<in> set (list_available_gemini_models other_listing ''g-key''). \<not> sublist pid a"
    unfolding avail by (simp add: priority_def sublist_code)
  note inst1 = choose_explicit_or_default
    [of "''gemini-1.5-flash''" demo_listing "''g-key''" failing_listing "OtherError ''invalid api key''"]
  note inst2 = choose_explicit_or_default
    [of "''Auto (recommended)''" "list_available_gemini_models other_listing" "''g-key''"
        failing_listing "OtherError ''invalid api key''"]
  from inst1 a have "choose_gemini_model demo_listing ''g-key'' ''gemini-1.5-flash''
      = Inr ''gemini-1.5-flash''" by blast
  moreover from inst1 b have
    "choose_gemini_model (list_available_gemini_models failing_listing) ''g-key''
       ''Auto (recommended)'' = Inr ''gemini-1.5-pro''" by blast
  moreover from inst2 d have
    "choose_gemini_model (list_available_gemini_models other_listing) ''g-key''
       ''Auto (recommended)'' = Inr ''gemini-1.5-pro''" by blast
  ultimately show ?thesis using a b c by simp
qed

end
